theory Spec2Isabelle
  imports Complex_Main
begin

section \<open>JavaScript values\<close>

text \<open>
  A JavaScript number is a finite value, one of the two infinities, or NaN. A finite double
  is read as the real number it denotes: a comparison of two doubles is exact, and every
  constant the modelled code compares with is a double. Where the code computes with
  numbers that are no small integers, each operation is the exact one followed by the
  rounding \<open>fl\<close> to the nearest double, defined below.
\<close>

datatype jsnum = Num real | PosInf | NegInf | NaN

text \<open>\<open>a < b\<close> of JavaScript: false as soon as one side is NaN.\<close>

fun js_lt :: "jsnum \<Rightarrow> jsnum \<Rightarrow> bool" where
  "js_lt NaN b = False"
| "js_lt a NaN = False"
| "js_lt (Num a) (Num b) = (a < b)"
| "js_lt a NegInf = False"
| "js_lt NegInf b = True"
| "js_lt PosInf b = False"
| "js_lt (Num a) PosInf = True"

text \<open>\<open>a <= b\<close> of JavaScript: false as soon as one side is NaN, else the negation of \<open>b < a\<close>.\<close>

fun js_le :: "jsnum \<Rightarrow> jsnum \<Rightarrow> bool" where
  "js_le NaN b = False"
| "js_le a NaN = False"
| "js_le a b = (\<not> js_lt b a)"

definition js_gt :: "jsnum \<Rightarrow> jsnum \<Rightarrow> bool" where
  "js_gt a b = js_lt b a"

definition js_ge :: "jsnum \<Rightarrow> jsnum \<Rightarrow> bool" where
  "js_ge a b = js_le b a"

text \<open>
  The values a caller can pass where the code tests \<open>typeof value\<close>; only a
  \<open>JNumber\<close> has the type \<open>'number'\<close>.
\<close>

datatype jsval =
    JUndefined
  | JNull
  | JBoolean bool
  | JNumber jsnum
  | JString string
  | JObject

text \<open>Truthiness, as \<open>!x\<close>, \<open>x || y\<close> and \<open>if (x)\<close> read it.\<close>

fun truthy_num :: "jsnum \<Rightarrow> bool" where
  "truthy_num (Num r) = (r \<noteq> 0)"
| "truthy_num NaN = False"
| "truthy_num PosInf = True"
| "truthy_num NegInf = True"

fun truthy :: "jsval \<Rightarrow> bool" where
  "truthy JUndefined = False"
| "truthy JNull = False"
| "truthy (JBoolean b) = b"
| "truthy (JNumber n) = truthy_num n"
| "truthy (JString s) = (s \<noteq> [])"
| "truthy JObject = True"

text \<open>
  Reading \<open>obj[key]\<close> on an object literal finds the literal's own property, or a property
  inherited from \<open>Object.prototype\<close> (a function or an object, so truthy), or nothing
  (\<open>undefined\<close>).
\<close>

datatype 'a lookup = Own 'a | Inherited | Missing

definition Object_prototype_keys :: "string list" where
  "Object_prototype_keys =
     [''constructor'', ''__proto__'', ''hasOwnProperty'', ''isPrototypeOf'',
      ''propertyIsEnumerable'', ''toLocaleString'', ''toString'', ''valueOf'',
      ''__defineGetter__'', ''__defineSetter__'', ''__lookupGetter__'', ''__lookupSetter__'']"

definition literal_get :: "(string \<times> 'a) list \<Rightarrow> string \<Rightarrow> 'a lookup" where
  "literal_get props k =
     (case map_of props k of
        Some v \<Rightarrow> Own v
      | None \<Rightarrow> if k \<in> set Object_prototype_keys then Inherited else Missing)"

text \<open>
  \<open>Math.round\<close> of a finite number: the nearest integer, a half rounding up. The result
  is exact, not the rounded sum \<open>x + 0.5\<close>.
\<close>

definition Math_round :: "real \<Rightarrow> int" where
  "Math_round x = \<lfloor>x + 1 / 2\<rfloor>"

subsection \<open>Rounding to the nearest double\<close>

text \<open>
  A double has 53 significant bits. For \<open>x\<close> with \<open>2^e \<le> |x| < 2^(e+1)\<close> the doubles
  around \<open>x\<close> are the multiples of \<open>2^(e-52)\<close>, and \<open>fl x\<close> is the nearest of them, a
  tie going to the even multiple. The range of the exponent is not modelled: no overflow
  to an infinity and no subnormal numbers.
\<close>

definition pow2 :: "int \<Rightarrow> real" where
  "pow2 e = (if 0 \<le> e then 2 ^ nat e else 1 / 2 ^ nat (- e))"

definition binade :: "real \<Rightarrow> int" where
  "binade x = \<lfloor>log 2 \<bar>x\<bar>\<rfloor>"

definition round_half_even :: "real \<Rightarrow> int" where
  "round_half_even z =
     (let f = \<lfloor>z\<rfloor>; d = z - real_of_int f
      in if d < 1 / 2 then f
         else if 1 / 2 < d then f + 1
         else if even f then f else f + 1)"

definition fl :: "real \<Rightarrow> real" where
  "fl x =
     (if x = 0 then 0
      else sgn x * (pow2 (binade x - 52)
             * real_of_int (round_half_even (\<bar>x\<bar> / pow2 (binade x - 52)))))"

subsection \<open>Arithmetic on numbers\<close>

text \<open>\<open>a * b\<close>: NaN absorbs, and an infinity times zero is NaN.\<close>

fun js_mul :: "jsnum \<Rightarrow> jsnum \<Rightarrow> jsnum" where
  "js_mul NaN b = NaN"
| "js_mul a NaN = NaN"
| "js_mul (Num a) (Num b) = Num (fl (a * b))"
| "js_mul (Num a) PosInf = (if a = 0 then NaN else if 0 < a then PosInf else NegInf)"
| "js_mul (Num a) NegInf = (if a = 0 then NaN else if 0 < a then NegInf else PosInf)"
| "js_mul PosInf (Num b) = (if b = 0 then NaN else if 0 < b then PosInf else NegInf)"
| "js_mul NegInf (Num b) = (if b = 0 then NaN else if 0 < b then NegInf else PosInf)"
| "js_mul PosInf PosInf = PosInf"
| "js_mul PosInf NegInf = NegInf"
| "js_mul NegInf PosInf = NegInf"
| "js_mul NegInf NegInf = PosInf"

text \<open>\<open>a - b\<close>: NaN absorbs, and the difference of two equal infinities is NaN.\<close>

fun js_sub :: "jsnum \<Rightarrow> jsnum \<Rightarrow> jsnum" where
  "js_sub NaN b = NaN"
| "js_sub a NaN = NaN"
| "js_sub (Num a) (Num b) = Num (fl (a - b))"
| "js_sub PosInf PosInf = NaN"
| "js_sub NegInf NegInf = NaN"
| "js_sub PosInf b = PosInf"
| "js_sub NegInf b = NegInf"
| "js_sub (Num a) PosInf = NegInf"
| "js_sub (Num a) NegInf = PosInf"

text \<open>\<open>Math.round\<close> of any number: an infinity and NaN are returned as they are.\<close>

fun Math_round_num :: "jsnum \<Rightarrow> jsnum" where
  "Math_round_num (Num x) = Num (real_of_int (Math_round x))"
| "Math_round_num n = n"

text \<open>\<open>Math.max(a, b)\<close>: NaN as soon as one argument is NaN.\<close>

fun Math_max :: "jsnum \<Rightarrow> jsnum \<Rightarrow> jsnum" where
  "Math_max NaN b = NaN"
| "Math_max a NaN = NaN"
| "Math_max a b = (if js_lt a b then b else a)"

text \<open>
  \<open>a === b\<close>: NaN equals nothing, and two objects are equal only when they are the same
  object, which two values parsed from different messages never are.
\<close>

fun strict_eq :: "jsval \<Rightarrow> jsval \<Rightarrow> bool" where
  "strict_eq (JNumber a) (JNumber b) = (a \<noteq> NaN \<and> a = b)"
| "strict_eq JObject JObject = False"
| "strict_eq a b = (a = b)"

section \<open>feedbackUtils.js\<close>

record category =
  key :: string
  label :: string
  inverseScale :: bool
  defaultThreshold :: real
  warningMessage :: string

definition FEEDBACK_CATEGORIES :: "(string \<times> category) list" where
  "FEEDBACK_CATEGORIES =
     [(''tired'', \<lparr>key = ''tired'', label = ''Tired'', inverseScale = False,
         defaultThreshold = 7, warningMessage = ''High tiredness may affect group morale''\<rparr>),
      (''energetic'', \<lparr>key = ''energetic'', label = ''Energetic'', inverseScale = True,
         defaultThreshold = 3, warningMessage = ''Low energy may require rest activities''\<rparr>),
      (''sick'', \<lparr>key = ''sick'', label = ''Sick'', inverseScale = False,
         defaultThreshold = 6, warningMessage = ''Health concerns require immediate attention''\<rparr>),
      (''hungry'', \<lparr>key = ''hungry'', label = ''Hungry'', inverseScale = False,
         defaultThreshold = 7, warningMessage = ''Hunger levels affecting trip enjoyment''\<rparr>),
      (''adventurous'', \<lparr>key = ''adventurous'', label = ''Adventurous'', inverseScale = True,
         defaultThreshold = 3,
         warningMessage = ''Low adventurousness may need activity changes''\<rparr>)]"

text \<open>The branch of \<open>calculateSeverity\<close> for inverse scales: lower values are worse.\<close>

definition inverse_scale_severity :: "jsnum \<Rightarrow> string" where
  "inverse_scale_severity v =
     (if js_le v (Num 2) then ''CRITICAL''
      else if js_le v (Num 3) then ''HIGH''
      else if js_le v (Num 5) then ''MODERATE''
      else if js_le v (Num 7) then ''LOW''
      else ''EXCELLENT'')"

text \<open>The branch of \<open>calculateSeverity\<close> for normal scales: higher values are worse.\<close>

definition normal_scale_severity :: "jsnum \<Rightarrow> string" where
  "normal_scale_severity v =
     (if js_ge v (Num 9) then ''CRITICAL''
      else if js_ge v (Num 7) then ''HIGH''
      else if js_ge v (Num 5) then ''MODERATE''
      else if js_ge v (Num 3) then ''LOW''
      else ''EXCELLENT'')"

text \<open>
  \<open>calculateSeverity(value, categoryKey)\<close>. An inherited property passes \<open>!category\<close>
  and has no \<open>inverseScale\<close>, which reads as \<open>undefined\<close> and selects the normal branch.
\<close>

definition calculateSeverity :: "jsval \<Rightarrow> string \<Rightarrow> string" where
  "calculateSeverity v categoryKey =
     (case v of
        JNumber n \<Rightarrow>
          if js_lt n (Num 1) \<or> js_gt n (Num 10) then ''MODERATE''
          else (case literal_get FEEDBACK_CATEGORIES categoryKey of
                  Missing \<Rightarrow> ''MODERATE''
                | Own c \<Rightarrow>
                    if inverseScale c then inverse_scale_severity n
                    else normal_scale_severity n
                | Inherited \<Rightarrow> normal_scale_severity n)
      | _ \<Rightarrow> ''MODERATE'')"

text \<open>The categories whose configuration entry has \<open>inverseScale: true\<close>.\<close>

definition is_inverse_category :: "string \<Rightarrow> bool" where
  "is_inverse_category k =
     (case map_of FEEDBACK_CATEGORIES k of Some c \<Rightarrow> inverseScale c | None \<Rightarrow> False)"

text \<open>\<open>SEVERITY_LEVELS\<close>: the \<open>value\<close> of each tier (the colours are not modelled).\<close>

definition SEVERITY_LEVELS :: "(string \<times> int) list" where
  "SEVERITY_LEVELS =
     [(''CRITICAL'', 5), (''HIGH'', 4), (''MODERATE'', 3), (''LOW'', 2), (''EXCELLENT'', 1)]"

text \<open>
  One category of an aggregated snapshot, as the backend's JSON carries it: a numeric
  \<open>average\<close> and \<open>count\<close> and a \<open>severity\<close> string; \<open>None\<close> is a field that is absent.
  A snapshot is an object from category keys to such entries.
\<close>

record category_data =
  average :: "jsnum option"
  count :: "jsnum option"
  severity :: "string option"

type_synonym snapshot = "string \<rightharpoonup> category_data"

text \<open>
  The body of the \<open>forEach\<close> of \<open>calculateOptimalDuration\<close>: one category updates
  \<open>adjustmentFactor\<close> and \<open>reason\<close>. \<open>data && data.average\<close> skips a missing entry, a
  missing average and the falsy averages 0 and NaN. The literals 0.2, 0.15 and 0.1 are the
  doubles nearest to them, and each subtraction rounds.
\<close>

definition duration_step :: "snapshot \<Rightarrow> string \<Rightarrow> real \<times> string list \<Rightarrow> real \<times> string list" where
  "duration_step feedbackData categoryKey acc =
     (case feedbackData categoryKey of
        None \<Rightarrow> acc
      | Some d \<Rightarrow>
         (case average d of
            None \<Rightarrow> acc
          | Some v \<Rightarrow>
             if \<not> truthy_num v then acc
             else if categoryKey = ''tired'' \<and> js_gt v (Num 6)
               then (fl (fst acc - fl 0.2), snd acc @ [''High fatigue levels detected''])
             else if categoryKey = ''hungry'' \<and> js_gt v (Num 6)
               then (fl (fst acc - fl 0.15), snd acc @ [''Hunger levels increasing''])
             else if categoryKey = ''energetic'' \<and> js_lt v (Num 4)
               then (fl (fst acc - fl 0.1), snd acc @ [''Low energy detected''])
             else acc))"

record optimal_duration =
  recommended :: jsnum
  original :: jsnum
  adjustment :: jsnum
  adjustmentFactor :: int
  reason :: "string list"
  confidence :: real

text \<open>
  \<open>calculateOptimalDuration(feedbackData, baseDuration)\<close>, for a base duration that is any
  number, NaN and the infinities included. The factor is always a finite double.
\<close>

definition calculateOptimalDuration :: "snapshot \<Rightarrow> jsnum \<Rightarrow> optimal_duration" where
  "calculateOptimalDuration feedbackData baseDuration =
     (let (factor, why) =
            fold (duration_step feedbackData) [''tired'', ''energetic'', ''hungry''] (0, []);
          optimalDuration =
            Math_max (Math_round_num (js_mul baseDuration (Num (fl (1 + factor))))) (Num 15)
      in \<lparr>recommended = optimalDuration,
          original = baseDuration,
          adjustment = Math_round_num (js_sub optimalDuration baseDuration),
          adjustmentFactor = Math_round (fl (factor * 100)),
          reason = (if length why > 0 then why else [''No adjustments needed'']),
          confidence = min 100 (fl (70 + fl (\<bar>factor\<bar> * 30)))\<rparr>)"

section \<open>useFeedback hook\<close>

text \<open>
  The aggregated feedback the hook holds: the category entries, and the submitting user's
  own sample when the backend sends one (\<open>user_feedback\<close>). A sample is an object from
  field names to values.
\<close>

type_synonym jsobj = "string \<rightharpoonup> jsval"

record aggregated =
  cats :: snapshot
  user_feedback :: "jsobj option"
  agg_lastUpdated :: "nat option"
  agg_tripId :: jsval
  agg_activityId :: jsval

definition riskWeights :: "(string \<times> real) list" where
  "riskWeights =
     [(''CRITICAL'', 5), (''HIGH'', 4), (''MODERATE'', 3), (''LOW'', 2), (''EXCELLENT'', 1)]"

text \<open>
  \<open>sum + (riskWeights[sev] || 3)\<close>. An inherited property of \<open>riskWeights\<close> is a function
  or an object: it is truthy, \<open>+\<close> then concatenates strings, and the sum stays a string
  that is no numeral; \<open>None\<close> stands for that string.
\<close>

definition risk_add :: "real option \<Rightarrow> string \<Rightarrow> real option" where
  "risk_add acc sev =
     (case acc of
        None \<Rightarrow> None
      | Some s \<Rightarrow>
         (case literal_get riskWeights sev of
            Own w \<Rightarrow> Some (s + (if w \<noteq> 0 then w else 3))
          | Missing \<Rightarrow> Some (s + 3)
          | Inherited \<Rightarrow> None))"

text \<open>\<open>feedbackData[cat]?.severity\<close> for each category, then \<open>.filter(Boolean)\<close>.\<close>

definition severities_of :: "aggregated \<Rightarrow> string list" where
  "severities_of feedbackData =
     filter (\<lambda>s. s \<noteq> [])
       (List.map_filter
          (\<lambda>cat. case cats feedbackData cat of None \<Rightarrow> None | Some d \<Rightarrow> severity d)
          [''tired'', ''energetic'', ''sick'', ''hungry'', ''adventurous''])"

text \<open>
  The division by \<open>severities.length\<close>: a string that is no numeral divides to NaN. The
  sum is an integer of at most 25 and the length at most 5. Their quotient is left
  unrounded: it is a multiple of 1/60, so it is either one of the thresholds 4.5, 3.5, 2.5,
  1.5 that \<open>getOverallRiskLevel\<close> compares it with, or further from them than the
  rounding to a double moves it, and the comparisons come out the same.
\<close>

definition avg_risk :: "string list \<Rightarrow> jsnum" where
  "avg_risk severities =
     (case foldl risk_add (Some 0) severities of
        None \<Rightarrow> NaN
      | Some s \<Rightarrow> Num (s / real (length severities)))"

definition getOverallRiskLevel :: "aggregated option \<Rightarrow> string" where
  "getOverallRiskLevel feedbackData =
     (case feedbackData of
        None \<Rightarrow> ''UNKNOWN''
      | Some fd \<Rightarrow>
         (let severities = severities_of fd in
          if length severities = 0 then ''UNKNOWN''
          else
            (let avgRisk = avg_risk severities in
             if js_ge avgRisk (Num 4.5) then ''CRITICAL''
             else if js_ge avgRisk (Num 3.5) then ''HIGH''
             else if js_ge avgRisk (Num 2.5) then ''MODERATE''
             else if js_ge avgRisk (Num 1.5) then ''LOW''
             else ''EXCELLENT'')))"

text \<open>
  The tiers and their ranks, read from \<open>SEVERITY_LEVELS\<close>: \<open>EXCELLENT\<close> is 1, \<open>LOW\<close> 2,
  \<open>MODERATE\<close> 3, \<open>HIGH\<close> 4 and \<open>CRITICAL\<close> 5.
\<close>

definition tier_names :: "string list" where
  "tier_names = map fst SEVERITY_LEVELS"

definition tier_rank :: "string \<Rightarrow> int" where
  "tier_rank s = (case map_of SEVERITY_LEVELS s of Some v \<Rightarrow> v | None \<Rightarrow> 0)"

definition tier_of_rank :: "int \<Rightarrow> string" where
  "tier_of_rank r =
     (case find (\<lambda>(name, v). v = r) SEVERITY_LEVELS of
        Some (name, v) \<Rightarrow> name
      | None \<Rightarrow> ''UNKNOWN'')"

text \<open>A category of the snapshot carries a severity tier: its entry names one of the five.\<close>

definition carries_tier :: "aggregated \<Rightarrow> string \<Rightarrow> bool" where
  "carries_tier fd cat =
     (case cats fd cat of
        None \<Rightarrow> False
      | Some d \<Rightarrow> (case severity d of None \<Rightarrow> False | Some s \<Rightarrow> s \<in> set tier_names))"

definition category_rank :: "aggregated \<Rightarrow> string \<Rightarrow> int" where
  "category_rank fd cat =
     (case cats fd cat of
        None \<Rightarrow> 0
      | Some d \<Rightarrow> (case severity d of None \<Rightarrow> 0 | Some s \<Rightarrow> tier_rank s))"

text \<open>
  The overall risk in the words of the specification, to compare with
  \<open>getOverallRiskLevel\<close>: the mean of the per-category tier ranks under the weights
  \<open>w\<close>, and that mean under weight 1 for every category, rounded to the nearest tier.
\<close>

definition spec_weighted_mean_rank :: "(string \<Rightarrow> real) \<Rightarrow> aggregated \<Rightarrow> real" where
  "spec_weighted_mean_rank w fd =
     (\<Sum>cat\<leftarrow>[''tired'', ''energetic'', ''sick'', ''hungry'', ''adventurous''].
        w cat * real_of_int (category_rank fd cat))
     / (\<Sum>cat\<leftarrow>[''tired'', ''energetic'', ''sick'', ''hungry'', ''adventurous'']. w cat)"

definition spec_overall_risk :: "aggregated \<Rightarrow> string" where
  "spec_overall_risk fd = tier_of_rank (round (spec_weighted_mean_rank (\<lambda>cat. 1) fd))"

text \<open>Reading a field of an object: \<open>undefined\<close> when the field is absent.\<close>

definition get :: "jsobj \<Rightarrow> string \<Rightarrow> jsval" where
  "get obj k = (case obj k of None \<Rightarrow> JUndefined | Some v \<Rightarrow> v)"

datatype js_error = Error string | TypeError

text \<open>
  What a function throws: an error as raised, or the \<open>AppError\<close> that
  \<open>defaultErrorHandler\<close> builds around it.
\<close>

datatype thrown = Raw js_error | AppError js_error

text \<open>
  What a call of feedbackApi.js resolves to: \<open>{success: true, data}\<close> with the body of
  the response, or \<open>{success: false}\<close>. The backend is not part of the hook: each call's
  result is an input of the model.
\<close>

datatype 'a api_result = Success 'a | Failure

record feedback_state =
  feedbackData :: "aggregated option"
  userFeedback :: "jsobj option"
  isLoading :: bool
  error :: "thrown option"
  lastUpdated :: "nat option"







section \<open>feedbackApi.js and the ActivityFeedback form\<close>

datatype validation_error = Activity_ID_required | Must_be_between_1_and_10 string

record validation =
  isValid :: bool
  errors :: "validation_error list"

text \<open>\<open>typeof value !== 'number' || value < 1 || value > 10\<close>\<close>

definition fails_range_check :: "jsval \<Rightarrow> bool" where
  "fails_range_check v =
     (case v of JNumber n \<Rightarrow> js_lt n (Num 1) \<or> js_gt n (Num 10) | _ \<Rightarrow> True)"

definition validateFeedbackData :: "jsobj \<Rightarrow> validation" where
  "validateFeedbackData fd =
     (let errors0 =
            (if \<not> truthy (get fd ''activityId'') \<and> \<not> truthy (get fd ''activity_id'')
             then [Activity_ID_required] else []);
          errors1 =
            fold (\<lambda>category errs.
                    if fails_range_check (get fd category)
                    then errs @ [Must_be_between_1_and_10 category] else errs)
              [''tired'', ''energetic'', ''sick'', ''hungry'', ''adventurous''] errors0
      in \<lparr>isValid = (length errors1 = 0), errors = errors1\<rparr>)"

datatype submit_message = Message_error string "string option" | Message_success string

record form_state =
  feedback :: jsobj
  form_errors :: "string \<rightharpoonup> string"
  isSubmitting :: bool
  submitMessage :: "submit_message option"

definition default_feedback :: jsobj where
  "default_feedback =
     [''tired'' \<mapsto> JNumber (Num 5), ''energetic'' \<mapsto> JNumber (Num 5),
      ''sick'' \<mapsto> JNumber (Num 5), ''hungry'' \<mapsto> JNumber (Num 5),
      ''adventurous'' \<mapsto> JNumber (Num 5)]"

text \<open>
  \<open>handleSubmit\<close> of the form: the state of the component afterwards and the object
  passed to \<open>submitFeedback\<close>, \<open>None\<close> when nothing is sent. \<open>stamp\<close> is the text of
  \<open>Date.now()\<close>, \<open>result\<close> what \<open>submitFeedback\<close> resolves to if it is called. The
  validation errors are strings, in which \<open>handleValidationError\<close> finds no \<open>field\<close>:
  the field errors it returns are empty. The callbacks \<open>onSuccess\<close> and \<open>onCancel\<close>
  belong to the parent and are left out.
\<close>

definition handleSubmit ::
  "jsval \<Rightarrow> string \<Rightarrow> jsobj option api_result \<Rightarrow> form_state \<Rightarrow> form_state \<times> jsobj option" where
  "handleSubmit activityId stamp result st =
     (let st0 = st\<lparr>submitMessage := None\<rparr>;
          validationData =
            [''activityId'' \<mapsto>
               (if truthy activityId then activityId else JString (''activity-'' @ stamp))]
              ++ feedback st0;
          validation = validateFeedbackData validationData
      in if \<not> isValid validation
         then (st0\<lparr>form_errors := Map.empty,
                    submitMessage :=
                      Some (Message_error ''Please fix the errors below and try again.'' None)\<rparr>,
               None)
         else
           (let request = [''activityId'' \<mapsto> activityId] ++ feedback st0 in
            case result of
              Success body \<Rightarrow>
                (st0\<lparr>feedback := default_feedback,
                     isSubmitting := False,
                     submitMessage := Some (Message_success ''Feedback submitted successfully!'')\<rparr>,
                 Some request)
            | Failure \<Rightarrow>
                (st0\<lparr>isSubmitting := False,
                     submitMessage :=
                       Some (Message_error ''Failed to submit feedback. Please try again.''
                               (Some ''Something went wrong. Please try again.''))\<rparr>,
                 Some request)))"

section \<open>VotingInterface: the response rate\<close>

text \<open>
  \<open>getResponseRate\<close>, for the two counts that the component receives as properties,
  integers that a double holds exactly. The quotient and the product each round to a double.
\<close>

definition getResponseRate :: "int \<Rightarrow> int \<Rightarrow> int" where
  "getResponseRate participantCount respondedParticipants =
     (if participantCount = 0 then 0
      else Math_round
             (fl (fl (real_of_int respondedParticipants / real_of_int participantCount) * 100)))"

section \<open>useWebSocket: incoming messages\<close>

record participant =
  user_id :: string
  username :: string
  connected :: bool

record feedback_item =
  item_user_id :: string
  item_username :: string
  feedback_preview :: string
  timestamp :: string

text \<open>
  A message by its \<open>type\<close>, with the fields that \<open>handleMessage\<close> reads; \<open>None\<close> is a
  field that is absent or falsy. The current activity is an object, \<open>None\<close> when it is
  \<open>null\<close>; the \<open>activity_id\<close> and \<open>new_status\<close> of a status message are any values,
  \<open>undefined\<close> when absent. \<open>feedback_received\<close> and \<open>feedback_live_update\<close> share a
  case of the switch, as do the two activity status types and the two admin decision types.
\<close>

datatype ws_message =
    Connection_established
  | Initial_data "jsobj option" "feedback_item list option" "participant list option"
  | Participant_joined string string
  | Participant_left string
  | Feedback_received string "string option" string
  | Activity_status_updated jsval jsval
  | Admin_decision_made
  | Pong
  | Error_message string
  | Unknown_type string

record ws_state =
  connectionStatus :: string
  lastMessage :: "ws_message option"
  participants :: "participant list"
  currentActivity :: "jsobj option"
  recentFeedback :: "feedback_item list"

text \<open>
  \<open>handleMessage(message)\<close>. The socket's \<open>onmessage\<close> calls the \<open>handleMessage\<close> of the
  render in which \<open>connect\<close> was built (memoised on the trip, the user and the name), so the
  \<open>currentActivity\<close> that the function body reads is the one of that render, \<open>seen\<close>:
  \<open>null\<close> for the connection made on the first render. The updater functions passed to the
  setters receive the live state.
\<close>

fun handleMessage :: "jsobj option \<Rightarrow> ws_message \<Rightarrow> ws_state \<Rightarrow> ws_state" where
  "handleMessage seen Connection_established s =
     s\<lparr>lastMessage := Some Connection_established, connectionStatus := ''connected''\<rparr>"
| "handleMessage seen (Initial_data current recent active) s =
     s\<lparr>lastMessage := Some (Initial_data current recent active),
       currentActivity := current,
       recentFeedback := (case recent of None \<Rightarrow> [] | Some fs \<Rightarrow> fs),
       participants := (case active of None \<Rightarrow> [] | Some ps \<Rightarrow> ps)\<rparr>"
| "handleMessage seen (Participant_joined uid name) s =
     s\<lparr>lastMessage := Some (Participant_joined uid name),
       participants :=
         (case find (\<lambda>p. user_id p = uid) (participants s) of
            Some exists \<Rightarrow> participants s
          | None \<Rightarrow>
              participants s @ [\<lparr>user_id = uid, username = name, connected = True\<rparr>])\<rparr>"
| "handleMessage seen (Participant_left uid) s =
     s\<lparr>lastMessage := Some (Participant_left uid),
       participants := filter (\<lambda>p. user_id p \<noteq> uid) (participants s)\<rparr>"
| "handleMessage seen (Feedback_received uid preview time) s =
     s\<lparr>lastMessage := Some (Feedback_received uid preview time),
       recentFeedback :=
         (case preview of
            None \<Rightarrow> recentFeedback s
          | Some pv \<Rightarrow>
              \<lparr>item_user_id = uid, item_username = ''Current User'',
               feedback_preview = pv, timestamp = time\<rparr> # take 9 (recentFeedback s))\<rparr>"
| "handleMessage seen (Activity_status_updated aid new_status) s =
     s\<lparr>lastMessage := Some (Activity_status_updated aid new_status),
       currentActivity :=
         (if strict_eq aid (case seen of None \<Rightarrow> JUndefined | Some a \<Rightarrow> get a ''activity_id'')
          then Some ((case currentActivity s of None \<Rightarrow> Map.empty | Some a \<Rightarrow> a)
                      ++ [''status'' \<mapsto> new_status])
          else currentActivity s)\<rparr>"
| "handleMessage seen m s = s\<lparr>lastMessage := Some m\<rparr>"

section \<open>errorHandling.js: retry with backoff\<close>

text \<open>
  The loop of \<open>retryWithBackoff(fn, maxRetries, baseDelay)\<close>, entered with \<open>attempt\<close> and
  \<open>lastError\<close>. \<open>fn k\<close> is the outcome of the invocation number \<open>k\<close> of the callback,
  counted from 0: \<open>Inl\<close> an error thrown (or a rejected promise), \<open>Inr\<close> a value. The
  result is what the function returns (\<open>Inr\<close>) or throws (\<open>Inl\<close>; \<open>None\<close> is the
  \<open>undefined\<close> that \<open>lastError\<close> holds before any failure), with the number of invocations
  made. The pauses between attempts change neither and are left out.
\<close>

function retry_loop ::
  "(nat \<Rightarrow> 'e + 'a) \<Rightarrow> int \<Rightarrow> int \<Rightarrow> 'e option \<Rightarrow> ('e option + 'a) \<times> nat" where
  "retry_loop fn maxRetries attempt lastError =
     (if attempt \<le> maxRetries then
        (case fn (nat (attempt - 1)) of
           Inr v \<Rightarrow> (Inr v, nat attempt)
         | Inl e \<Rightarrow>
             if attempt = maxRetries then (Inl (Some e), nat attempt)
             else retry_loop fn maxRetries (attempt + 1) (Some e))
      else (Inl lastError, nat (attempt - 1)))"
  by pat_completeness auto
termination
  by (relation "measure (\<lambda>(fn, maxRetries, attempt, lastError). nat (maxRetries + 1 - attempt))")
    auto

definition retryWithBackoff :: "(nat \<Rightarrow> 'e + 'a) \<Rightarrow> int \<Rightarrow> ('e option + 'a) \<times> nat" where
  "retryWithBackoff fn maxRetries = retry_loop fn maxRetries 1 None"

section \<open>Threshold monitor: the risk alert\<close>

text \<open>
  Modelled from the spec: the ordered severity tiers, and the two alert events of the
  outbound envelope, each carrying the overall tier. The repository has no code of the
  Threshold Monitor.
\<close>

datatype tier = EXCELLENT | LOW | MODERATE | HIGH | CRITICAL

datatype alert_event = risk_alert_raised tier | risk_alert_cleared tier

text \<open>
  Modelled from the spec: the tiers at which the Threshold Monitor holds an alert,
  \<open>HIGH\<close> and \<open>CRITICAL\<close>; the repository has no code of the monitor.
\<close>

definition alarming :: "tier \<Rightarrow> bool" where
  "alarming t = (t = HIGH \<or> t = CRITICAL)"

text \<open>
  Modelled from the spec: the alert part of \<open>evaluate\<close>, which the repository does not
  implement. Given the overall tier and whether an alert is standing, it gives the events
  to broadcast and whether an alert stands afterwards: an alert is raised the first time
  the tier reaches \<open>HIGH\<close> or \<open>CRITICAL\<close> since the last clear, and cleared when the tier
  drops back to \<open>MODERATE\<close> or below.
\<close>

definition evaluate :: "tier \<Rightarrow> bool \<Rightarrow> alert_event list \<times> bool" where
  "evaluate overallTier standing =
     (if alarming overallTier
      then (if standing then ([], True) else ([risk_alert_raised overallTier], True))
      else (if standing then ([risk_alert_cleared overallTier], False) else ([], False)))"

text \<open>
  Modelled from the spec: a run of the monitor, one evaluation per accepted sample, in the
  order the per-trip actor commits them.
\<close>

fun monitor_run :: "tier list \<Rightarrow> bool \<Rightarrow> alert_event list \<times> bool" where
  "monitor_run [] standing = ([], standing)"
| "monitor_run (t # ts) standing =
     (let (events, standing') = evaluate t standing;
          (later, final) = monitor_run ts standing'
      in (events @ later, final))"

text \<open>Modelled from the spec: the events of type \<open>risk_alert_raised\<close>.\<close>

definition is_raised :: "alert_event \<Rightarrow> bool" where
  "is_raised e = (case e of risk_alert_raised t \<Rightarrow> True | risk_alert_cleared t \<Rightarrow> False)"

section \<open>Severity tiers of a value\<close>

lemma is_inverse_category_cases:
  "is_inverse_category c \<longleftrightarrow> c = ''energetic'' \<or> c = ''adventurous''"
  by (simp add: is_inverse_category_def FEEDBACK_CATEGORIES_def)

lemma calculateSeverity_inverse:
  assumes "is_inverse_category c" "1 \<le> v" "v \<le> 10"
  shows "calculateSeverity (JNumber (Num v)) c = inverse_scale_severity (Num v)"
  using assms
  by (auto simp: is_inverse_category_cases calculateSeverity_def js_gt_def literal_get_def
      FEEDBACK_CATEGORIES_def)

text \<open>
  C1, as stated, fails: at the value 4 of the inverse-scale category \<open>energetic\<close> the code
  answers \<open>MODERATE\<close>, while the higher-is-worse rule puts the complement 7 in \<open>HIGH\<close>.
\<close>

theorem C1_counterexample:
  "calculateSeverity (JNumber (Num 4)) ''energetic'' = ''MODERATE''
   \<and> normal_scale_severity (Num (11 - 4)) = ''HIGH''"
  by (simp add: calculateSeverity_def js_gt_def literal_get_def FEEDBACK_CATEGORIES_def
      inverse_scale_severity_def normal_scale_severity_def js_ge_def)

text \<open>
  C1, amended: the inverse-scale categories have boundaries of their own (2, 3, 5, 7).
  For a value \<open>v\<close> of the scale 1 to 10 and an inverse-scale category, the tier of \<open>v\<close>
  equals the tier that the higher-is-worse rule gives to \<open>11 - v\<close> exactly when \<open>v\<close> lies
  outside the three intervals (3, 4], (5, 6] and (7, 8].
\<close>

theorem C1_inverse_scale_vs_complement:
  assumes "is_inverse_category c" "1 \<le> v" "v \<le> 10"
  shows "(calculateSeverity (JNumber (Num v)) c = normal_scale_severity (Num (11 - v)))
         \<longleftrightarrow> \<not> (3 < v \<and> v \<le> 4 \<or> 5 < v \<and> v \<le> 6 \<or> 7 < v \<and> v \<le> 8)"
  unfolding calculateSeverity_inverse [OF assms]
  by (auto simp: inverse_scale_severity_def normal_scale_severity_def js_ge_def)

theorem C1_inverse_scale_vs_complement_witness:
  "is_inverse_category ''adventurous'' \<and> (1::real) \<le> 5 \<and> (5::real) \<le> 10
   \<and> calculateSeverity (JNumber (Num 5)) ''adventurous'' = normal_scale_severity (Num (11 - 5))"
proof -
  have h: "is_inverse_category ''adventurous''"
    by (simp add: is_inverse_category_cases)
  show ?thesis
    using h C1_inverse_scale_vs_complement [OF h, of 5] by simp
qed

lemma calculateSeverity_total:
  "calculateSeverity v categoryKey
   \<in> {''CRITICAL'', ''HIGH'', ''MODERATE'', ''LOW'', ''EXCELLENT''}"
  by (simp add: calculateSeverity_def inverse_scale_severity_def normal_scale_severity_def
      split: jsval.split lookup.split)

lemma calculateSeverity_rejected_value:
  "(\<forall>n. v \<noteq> JNumber n) \<or> (\<exists>n. v = JNumber n \<and> (js_lt n (Num 1) \<or> js_gt n (Num 10)))
   \<Longrightarrow> calculateSeverity v categoryKey = ''MODERATE''"
  by (auto simp: calculateSeverity_def split: jsval.split)

lemma calculateSeverity_missing_category:
  "literal_get FEEDBACK_CATEGORIES categoryKey = Missing
   \<Longrightarrow> calculateSeverity v categoryKey = ''MODERATE''"
  by (simp add: calculateSeverity_def split: jsval.split)

lemma calculateSeverity_inherited_key:
  "calculateSeverity (JNumber (Num 9)) ''toString'' = ''CRITICAL''"
  by (simp add: calculateSeverity_def js_gt_def literal_get_def Object_prototype_keys_def
      FEEDBACK_CATEGORIES_def normal_scale_severity_def js_ge_def)

text \<open>
  C9 asks for \<open>MODERATE\<close> whenever the value is not a number between 1 and 10. NaN has
  the type \<open>'number'\<close> and is neither below 1 nor above 10, so it passes the guard of
  \<open>calculateSeverity\<close>, fails every comparison of the normal branch and is classified
  \<open>EXCELLENT\<close>.
\<close>

theorem C9_nan_is_excellent:
  "calculateSeverity (JNumber NaN) ''tired'' = ''EXCELLENT''"
  by (simp add: calculateSeverity_def js_gt_def literal_get_def FEEDBACK_CATEGORIES_def
      normal_scale_severity_def js_ge_def)

section \<open>Properties of the rounding to doubles\<close>

lemma pow2_powr: "pow2 e = 2 powr (real_of_int e)"
  by (simp add: pow2_def powr_int)

lemma pow2_pos: "0 < pow2 e"
  by (simp add: pow2_powr)

lemma pow2_add: "pow2 (a + b) = pow2 a * pow2 b"
  by (simp add: pow2_powr powr_add)

lemma pow2_mono: "a \<le> b \<Longrightarrow> pow2 a \<le> pow2 b"
  by (simp add: pow2_powr)

lemma binade_bounds:
  assumes "x \<noteq> 0"
  shows "pow2 (binade x) \<le> \<bar>x\<bar>" and "\<bar>x\<bar> < pow2 (binade x + 1)"
proof -
  have pos: "0 < \<bar>x\<bar>" using assms by simp
  have "real_of_int (binade x) \<le> log 2 \<bar>x\<bar>"
    unfolding binade_def by linarith
  then have "2 powr real_of_int (binade x) \<le> 2 powr log 2 \<bar>x\<bar>"
    by simp
  then show "pow2 (binade x) \<le> \<bar>x\<bar>"
    using pos by (simp add: pow2_powr)
  have "log 2 \<bar>x\<bar> < real_of_int (binade x + 1)"
    unfolding binade_def by linarith
  then have "2 powr log 2 \<bar>x\<bar> < 2 powr real_of_int (binade x + 1)"
    by simp
  then show "\<bar>x\<bar> < pow2 (binade x + 1)"
    using pos by (simp add: pow2_powr)
qed

lemma binade_eq:
  assumes "pow2 e \<le> \<bar>x\<bar>" "\<bar>x\<bar> < pow2 (e + 1)"
  shows "binade x = e"
proof -
  have pos: "0 < \<bar>x\<bar>" using pow2_pos [of e] assms(1) by linarith
  have "2 powr real_of_int e \<le> 2 powr log 2 \<bar>x\<bar>"
    using assms(1) pos by (simp add: pow2_powr)
  then have lo: "real_of_int e \<le> log 2 \<bar>x\<bar>" by simp
  have "2 powr log 2 \<bar>x\<bar> < 2 powr real_of_int (e + 1)"
    using assms(2) pos by (simp add: pow2_powr)
  then have hi: "log 2 \<bar>x\<bar> < real_of_int (e + 1)" by simp
  show ?thesis unfolding binade_def using lo hi by linarith
qed

lemma round_half_even_int [simp]: "round_half_even (real_of_int n) = n"
  by (simp add: round_half_even_def)

lemma round_half_even_bounds:
  "\<lfloor>z\<rfloor> \<le> round_half_even z \<and> round_half_even z \<le> \<lfloor>z\<rfloor> + 1"
  by (simp add: round_half_even_def Let_def)

lemma round_half_even_mono:
  assumes "z \<le> w"
  shows "round_half_even z \<le> round_half_even w"
proof (cases "\<lfloor>z\<rfloor> = \<lfloor>w\<rfloor>")
  case True
  then show ?thesis using assms by (auto simp: round_half_even_def Let_def)
next
  case False
  then have "\<lfloor>z\<rfloor> + 1 \<le> \<lfloor>w\<rfloor>"
    using floor_mono [OF assms] by linarith
  then show ?thesis
    using round_half_even_bounds [of z] round_half_even_bounds [of w] by linarith
qed


lemma fl_eval:
  assumes "pow2 e \<le> \<bar>x\<bar>" "\<bar>x\<bar> < pow2 (e + 1)"
  shows "fl x = sgn x * (pow2 (e - 52) * real_of_int (round_half_even (\<bar>x\<bar> / pow2 (e - 52))))"
proof -
  have "0 < \<bar>x\<bar>" using pow2_pos [of e] assms(1) by linarith
  then have "x \<noteq> 0" by simp
  then show ?thesis by (simp add: fl_def binade_eq [OF assms])
qed

lemma fl_minus: "fl (- x) = - fl x"
  by (simp add: fl_def binade_def)

lemma fl_pos_bounds:
  assumes "0 < x"
  shows "pow2 (binade x) \<le> fl x" and "fl x \<le> pow2 (binade x + 1)"
proof -
  define u where "u = pow2 (binade x - 52)"
  have u: "0 < u" by (simp add: u_def pow2_pos)
  have x: "x \<noteq> 0" "\<bar>x\<bar> = x" "sgn x = 1" using assms by auto
  have flx: "fl x = u * real_of_int (round_half_even (x / u))"
    using x by (simp add: fl_def u_def)
  have p52: "pow2 52 = real_of_int (2 ^ 52)" and p53: "pow2 53 = real_of_int (2 ^ 53)"
    by (simp_all add: pow2_def)
  have "pow2 (binade x) = pow2 (binade x - 52 + 52)" by simp
  also have "\<dots> = pow2 (binade x - 52) * pow2 52" by (rule pow2_add)
  finally have lo: "pow2 (binade x) = u * real_of_int (2 ^ 52)"
    by (simp only: u_def p52)
  have "binade x + 1 = binade x - 52 + 53" by linarith
  then have "pow2 (binade x + 1) = pow2 (binade x - 52 + 53)" by (rule arg_cong)
  also have "\<dots> = pow2 (binade x - 52) * pow2 53" by (rule pow2_add)
  finally have hi: "pow2 (binade x + 1) = u * real_of_int (2 ^ 53)"
    by (simp only: u_def p53)
  have "u * real_of_int (2 ^ 52) \<le> x"
    using binade_bounds(1) [OF x(1)] x(2) lo by simp
  then have "real_of_int (2 ^ 52) \<le> x / u"
    using u by (simp add: pos_le_divide_eq mult.commute)
  then have "round_half_even (real_of_int (2 ^ 52)) \<le> round_half_even (x / u)"
    by (rule round_half_even_mono)
  then have "real_of_int (2 ^ 52) \<le> real_of_int (round_half_even (x / u))"
    unfolding round_half_even_int by linarith
  then show "pow2 (binade x) \<le> fl x"
    unfolding flx lo using u by (simp only: mult_le_cancel_left_pos)
  have "x < u * real_of_int (2 ^ 53)"
    using binade_bounds(2) [OF x(1)] x(2) hi by simp
  then have "x / u \<le> real_of_int (2 ^ 53)"
    using u by (simp add: pos_divide_le_eq mult.commute)
  then have "round_half_even (x / u) \<le> round_half_even (real_of_int (2 ^ 53))"
    by (rule round_half_even_mono)
  then have "real_of_int (round_half_even (x / u)) \<le> real_of_int (2 ^ 53)"
    unfolding round_half_even_int by linarith
  then show "fl x \<le> pow2 (binade x + 1)"
    unfolding flx hi using u by (simp only: mult_le_cancel_left_pos)
qed

lemma binade_mono:
  assumes "0 < x" "x \<le> y"
  shows "binade x \<le> binade y"
  unfolding binade_def using assms by (intro floor_mono) simp

lemma fl_mono_pos:
  assumes "0 < x" "x \<le> y"
  shows "fl x \<le> fl y"
proof (cases "binade x = binade y")
  case True
  define u where "u = pow2 (binade y - 52)"
  have u: "0 < u" by (simp add: u_def pow2_pos)
  have "x / u \<le> y / u" using assms u by (simp add: divide_right_mono)
  then have "real_of_int (round_half_even (x / u)) \<le> real_of_int (round_half_even (y / u))"
    using round_half_even_mono by simp
  then have "u * real_of_int (round_half_even (x / u)) \<le> u * real_of_int (round_half_even (y / u))"
    using u by (simp only: mult_le_cancel_left_pos)
  then show ?thesis using assms True by (simp add: fl_def u_def)
next
  case False
  then have "binade x + 1 \<le> binade y" using binade_mono [OF assms] by linarith
  then have "pow2 (binade x + 1) \<le> pow2 (binade y)" by (rule pow2_mono)
  moreover have "fl x \<le> pow2 (binade x + 1)" using assms by (intro fl_pos_bounds) 
  moreover have "pow2 (binade y) \<le> fl y" using assms by (intro fl_pos_bounds) simp
  ultimately show ?thesis by linarith
qed

lemma fl_nonneg: "0 \<le> x \<Longrightarrow> 0 \<le> fl x"
proof (cases "x = 0")
  case True then show ?thesis by (simp add: fl_def)
next
  case False
  assume "0 \<le> x"
  with False have "0 < x" by simp
  then have "pow2 (binade x) \<le> fl x" by (rule fl_pos_bounds)
  then show ?thesis using pow2_pos [of "binade x"] by linarith
qed

lemma fl_mono:
  assumes "x \<le> y"
  shows "fl x \<le> fl y"
proof -
  consider "0 < x" | "x \<le> 0" "0 \<le> y" | "y < 0" by linarith
  then show ?thesis
  proof cases
    case 1
    then show ?thesis using assms by (rule fl_mono_pos)
  next
    case 2
    have "fl (- x) \<ge> 0" using 2 by (intro fl_nonneg) simp
    then have "fl x \<le> 0" by (simp add: fl_minus)
    moreover have "0 \<le> fl y" using 2 by (intro fl_nonneg)
    ultimately show ?thesis by linarith
  next
    case 3
    have "fl (- y) \<le> fl (- x)" using 3 assms by (intro fl_mono_pos) auto
    then show ?thesis by (simp add: fl_minus)
  qed
qed

lemma fl_0 [simp]: "fl 0 = 0" by (simp add: fl_def)

lemma fl_1: "fl 1 = 1"
  using fl_eval [of 0 1] by (simp add: pow2_def round_half_even_def)




lemma fl_quarter: "fl (1 / 4) = 1 / 4"
  using fl_eval [of "-2" "1 / 4"] by (simp add: pow2_def round_half_even_def)

lemma fl_half: "fl (1 / 2) = 1 / 2"
  using fl_eval [of "-1" "1 / 2"] by (simp add: pow2_def round_half_even_def)

lemma fl_three_quarters: "fl (3 / 4) = 3 / 4"
  using fl_eval [of "-1" "3 / 4"] by (simp add: pow2_def round_half_even_def)

lemma Math_round_mono: "x \<le> y \<Longrightarrow> Math_round x \<le> Math_round y"
  by (simp add: Math_round_def floor_mono)


section \<open>The recommended duration\<close>

lemma duration_literals:
  "0 \<le> fl 0.2 \<and> fl 0.2 \<le> 1 / 4" "0 \<le> fl 0.15 \<and> fl 0.15 \<le> 1 / 4"
  "0 \<le> fl 0.1 \<and> fl 0.1 \<le> 1 / 4"
  using fl_mono [of "0.2" "1 / 4"] fl_mono [of "0.15" "1 / 4"] fl_mono [of "0.1" "1 / 4"]
    fl_nonneg [of "0.2"] fl_nonneg [of "0.15"] fl_nonneg [of "0.1"]
  by (simp_all add: fl_quarter)

lemma fl_sub_bounds:
  assumes "L \<le> a" "a \<le> 0" "0 \<le> c" "c \<le> 1 / 4" "fl (L - 1 / 4) = L - 1 / 4"
  shows "L - 1 / 4 \<le> fl (a - c) \<and> fl (a - c) \<le> 0"
proof -
  have "fl (L - 1 / 4) \<le> fl (a - c)" using assms by (intro fl_mono) linarith
  moreover have "fl (a - c) \<le> fl 0" using assms by (intro fl_mono) linarith
  ultimately show ?thesis using assms(5) by simp
qed

lemma duration_step_bounds:
  assumes "L \<le> fst acc" "fst acc \<le> 0" "fl (L - 1 / 4) = L - 1 / 4"
  shows "L - 1 / 4 \<le> fst (duration_step fd k acc) \<and> fst (duration_step fd k acc) \<le> 0"
  using assms
    fl_sub_bounds [OF assms(1,2) conjunct1 [OF duration_literals(1)] conjunct2 [OF duration_literals(1)] assms(3)]
    fl_sub_bounds [OF assms(1,2) conjunct1 [OF duration_literals(2)] conjunct2 [OF duration_literals(2)] assms(3)]
    fl_sub_bounds [OF assms(1,2) conjunct1 [OF duration_literals(3)] conjunct2 [OF duration_literals(3)] assms(3)]
  by (auto simp: duration_step_def split: option.split)

lemma duration_factor_bounds:
  fixes fd :: snapshot
  defines "f \<equiv> fst (fold (duration_step fd) [''tired'', ''energetic'', ''hungry''] (0, []))"
  shows "- (3 / 4) \<le> f \<and> f \<le> 0"
proof -
  let ?a0 = "(0::real, []::string list)"
  let ?a1 = "duration_step fd ''tired'' ?a0"
  let ?a2 = "duration_step fd ''energetic'' ?a1"
  let ?a3 = "duration_step fd ''hungry'' ?a2"
  have f: "f = fst ?a3" by (simp add: f_def)
  have q1: "fl (0 - 1 / 4) = 0 - 1 / 4" using fl_minus [of "1 / 4"] by (simp add: fl_quarter)
  have q2: "fl (- (1 / 4) - 1 / 4) = - (1 / 4) - 1 / 4"
    using fl_minus [of "1 / 2"] by (simp add: fl_half)
  have q3: "fl (- (1 / 2) - 1 / 4) = - (1 / 2) - 1 / 4"
    using fl_minus [of "3 / 4"] by (simp add: fl_three_quarters)
  have b1: "0 - 1 / 4 \<le> fst ?a1 \<and> fst ?a1 \<le> 0"
    by (rule duration_step_bounds [OF _ _ q1]) simp_all
  then have b1': "- (1 / 4) \<le> fst ?a1" "fst ?a1 \<le> 0" by simp_all
  have b2: "- (1 / 4) - 1 / 4 \<le> fst ?a2 \<and> fst ?a2 \<le> 0"
    by (rule duration_step_bounds [OF b1' q2])
  then have b2': "- (1 / 2) \<le> fst ?a2" "fst ?a2 \<le> 0" by simp_all
  have b3: "- (1 / 2) - 1 / 4 \<le> fst ?a3 \<and> fst ?a3 \<le> 0"
    by (rule duration_step_bounds [OF b2' q3])
  then show ?thesis unfolding f by simp
qed

lemma scaled_round_le:
  assumes "1 / 4 \<le> g" "g \<le> 1" "fl b = b"
  shows "max (Math_round (fl (b * g))) 15 \<le> max (Math_round b) 15"
proof (cases "0 \<le> b")
  case True
  have "b * g \<le> b * 1"
    using True assms by (intro mult_left_mono) auto
  then have "fl (b * g) \<le> fl b" by (intro fl_mono) simp
  then have "Math_round (fl (b * g)) \<le> Math_round b"
    unfolding assms(3) by (rule Math_round_mono)
  then show ?thesis by simp
next
  case False
  then have "b * g \<le> 0"
    using assms by (simp add: mult_le_0_iff)
  then have "fl (b * g) \<le> fl 0" by (rule fl_mono)
  then have "Math_round (fl (b * g)) \<le> Math_round 0"
    by (intro Math_round_mono) simp
  also have "Math_round 0 = 0" by (simp add: Math_round_def)
  finally show ?thesis by simp
qed

lemma calculateOptimalDuration_bounds:
  assumes "fl b = b"
  shows "\<exists>r. recommended (calculateOptimalDuration fd (Num b)) = Num (real_of_int r)
             \<and> 15 \<le> r \<and> r \<le> max (Math_round b) 15"
    and "adjustmentFactor (calculateOptimalDuration fd baseDuration) \<le> 0"
proof -
  define f where
    "f = fst (fold (duration_step fd) [''tired'', ''energetic'', ''hungry''] (0, []))"
  have fb: "- (3 / 4) \<le> f \<and> f \<le> 0"
    unfolding f_def by (rule duration_factor_bounds)
  define g where "g = fl (1 + f)"
  have "fl (1 / 4) \<le> g" unfolding g_def using fb by (intro fl_mono) simp
  moreover have "g \<le> fl 1" unfolding g_def using fb by (intro fl_mono) simp
  ultimately have gb: "1 / 4 \<le> g" "g \<le> 1" by (simp_all add: fl_quarter fl_1)
  define r where "r = max (Math_round (fl (b * g))) 15"
  have "recommended (calculateOptimalDuration fd (Num b)) = Num (real_of_int r)"
    by (simp add: calculateOptimalDuration_def f_def g_def r_def Let_def max_def split: prod.split)
  moreover have "15 \<le> r" by (simp add: r_def)
  moreover have "r \<le> max (Math_round b) 15"
    unfolding r_def using gb assms by (rule scaled_round_le)
  ultimately show "\<exists>r. recommended (calculateOptimalDuration fd (Num b)) = Num (real_of_int r)
             \<and> 15 \<le> r \<and> r \<le> max (Math_round b) 15" by blast
  have adj: "adjustmentFactor (calculateOptimalDuration fd baseDuration) = Math_round (fl (f * 100))"
    by (simp add: calculateOptimalDuration_def f_def Let_def split: prod.split)
  have "fl (f * 100) \<le> fl 0" using fb by (intro fl_mono) simp
  then have "Math_round (fl (f * 100)) \<le> Math_round 0"
    by (intro Math_round_mono) simp
  then show "adjustmentFactor (calculateOptimalDuration fd baseDuration) \<le> 0"
    unfolding adj by (simp add: Math_round_def)
qed

lemma fl_lit_0_2: "fl (1 / 5) = 3602879701896397 / 18014398509481984"
  using fl_eval [of "-3" "1 / 5"] by (simp add: pow2_def round_half_even_def)

lemma fl_lit_0_1: "fl (1 / 10) = 3602879701896397 / 36028797018963968"
  using fl_eval [of "-4" "1 / 10"] by (simp add: pow2_def round_half_even_def)

lemma fl_lit_0_15: "fl (3 / 20) = 5404319552844595 / 36028797018963968"
  using fl_eval [of "-3" "3 / 20"] by (simp add: pow2_def round_half_even_def)

lemma fl_ex_a1: "fl (3602879701896397 / 18014398509481984) = 3602879701896397 / 18014398509481984"
  using fl_eval [of "-3" "3602879701896397 / 18014398509481984"] by (simp add: pow2_def round_half_even_def)

lemma fl_ex_a2: "fl (10808639105689191 / 36028797018963968) = 1351079888211149 / 4503599627370496"
  using fl_eval [of "-2" "10808639105689191 / 36028797018963968"] by (simp add: pow2_def round_half_even_def)

lemma fl_ex_a3: "fl (16212958658533787 / 36028797018963968) = 4053239664633447 / 9007199254740992"
  using fl_eval [of "-2" "16212958658533787 / 36028797018963968"] by (simp add: pow2_def round_half_even_def)

lemma fl_ex_g: "fl (4953959590107545 / 9007199254740992) = 4953959590107545 / 9007199254740992"
  using fl_eval [of "-1" "4953959590107545 / 9007199254740992"] by (simp add: pow2_def round_half_even_def)

lemma fl_ex_m: "fl (74309393851613175 / 4503599627370496) = 4644337115725823 / 281474976710656"
  using fl_eval [of "4" "74309393851613175 / 4503599627370496"] by (simp add: pow2_def round_half_even_def)


lemma calculateOptimalDuration_example:
  "recommended
     (calculateOptimalDuration
        [''tired'' \<mapsto> \<lparr>average = Some (Num 8), count = None, severity = None\<rparr>,
         ''energetic'' \<mapsto> \<lparr>average = Some (Num 2), count = None, severity = None\<rparr>,
         ''hungry'' \<mapsto> \<lparr>average = Some (Num 9), count = None, severity = None\<rparr>]
        (Num 30))
   = Num 16"
  by (simp add: calculateOptimalDuration_def duration_step_def js_gt_def Let_def fl_minus
      fl_lit_0_2 fl_lit_0_1 fl_lit_0_15 fl_ex_a1 fl_ex_a2 fl_ex_a3 fl_ex_g fl_ex_m Math_round_def)

text \<open>
  C10 asks that the recommended duration be at least 15 minutes for every base duration.
  For a base duration that is NaN the product, its \<open>Math.round\<close> and the \<open>Math.max\<close>
  with 15 are all NaN: the minimum of 15 minutes that the code's comment announces does
  not hold there.
\<close>

theorem C10_nan_base_duration:
  "recommended (calculateOptimalDuration Map.empty NaN) = NaN"
  by (simp add: calculateOptimalDuration_def duration_step_def Let_def)

section \<open>The response rate\<close>



lemma fl_23_40: "fl (23 / 40) = 2589569785738035 / 4503599627370496"
  using fl_eval [of "-1" "23 / 40"] by (simp add: pow2_def round_half_even_def)

lemma fl_ex_y: "fl (64739244643450875 / 1125899906842624) = 8092405580431359 / 140737488355328"
  using fl_eval [of "5" "64739244643450875 / 1125899906842624"] by (simp add: pow2_def round_half_even_def)


lemma getResponseRate_example: "getResponseRate 40 23 = 57"
  by (simp add: getResponseRate_def fl_23_40 fl_ex_y Math_round_def)





section \<open>Participants of a room\<close>

lemma find_Some_iff_ex: "(\<exists>p\<in>set ps. P p) \<Longrightarrow> \<exists>q. find P ps = Some q"
  by (induction ps) auto

text \<open>
  C6, as stated, fails: a \<open>participant_joined\<close> message for a participant who is already
  in the list leaves the list as it was. The entry of the first session stays, the data of
  the newly arrived session is dropped.
\<close>

theorem C6_counterexample:
  "participants (handleMessage None (Participant_joined ''u1'' ''new session'')
      \<lparr>connectionStatus = ''connected'', lastMessage = None,
       participants = [\<lparr>user_id = ''u1'', username = ''old session'', connected = False\<rparr>],
       currentActivity = None, recentFeedback = []\<rparr>)
   = [\<lparr>user_id = ''u1'', username = ''old session'', connected = False\<rparr>]
   \<and> \<lparr>user_id = ''u1'', username = ''new session'', connected = True\<rparr>
       \<notin> set (participants (handleMessage None (Participant_joined ''u1'' ''new session'')
           \<lparr>connectionStatus = ''connected'', lastMessage = None,
            participants = [\<lparr>user_id = ''u1'', username = ''old session'', connected = False\<rparr>],
            currentActivity = None, recentFeedback = []\<rparr>))"
  by simp

text \<open>
  C6, amended: when a \<open>participant_joined\<close> message arrives for a participant who already
  has an entry in the list, the list of participants is unchanged: the existing entry is
  kept (first writer wins) and no entry is added.
\<close>

theorem C6_join_keeps_existing_entry:
  assumes "\<exists>p\<in>set (participants s). user_id p = uid"
  shows "participants (handleMessage seen (Participant_joined uid name) s) = participants s"
proof -
  from assms obtain q where "find (\<lambda>p. user_id p = uid) (participants s) = Some q"
    using find_Some_iff_ex [of "participants s" "\<lambda>p. user_id p = uid"] by blast
  then show ?thesis by simp
qed

theorem C6_join_keeps_existing_entry_witness:
  "participants (handleMessage None (Participant_joined ''u2'' ''again'')
      \<lparr>connectionStatus = ''connected'', lastMessage = None,
       participants = [\<lparr>user_id = ''u1'', username = ''ann'', connected = True\<rparr>,
                       \<lparr>user_id = ''u2'', username = ''bob'', connected = True\<rparr>],
       currentActivity = None, recentFeedback = []\<rparr>)
   = [\<lparr>user_id = ''u1'', username = ''ann'', connected = True\<rparr>,
      \<lparr>user_id = ''u2'', username = ''bob'', connected = True\<rparr>]"
  using C6_join_keeps_existing_entry [of
      "\<lparr>connectionStatus = ''connected'', lastMessage = None,
        participants = [\<lparr>user_id = ''u1'', username = ''ann'', connected = True\<rparr>,
                        \<lparr>user_id = ''u2'', username = ''bob'', connected = True\<rparr>],
        currentActivity = None, recentFeedback = []\<rparr>" "''u2''" None "''again''"]
  by simp

section \<open>The risk alert is edge-triggered\<close>

lemma monitor_run_standing:
  "\<forall>t\<in>set ts. alarming t \<Longrightarrow> monitor_run ts True = ([], True)"
  by (induction ts) (auto simp: evaluate_def)

lemma monitor_run_append:
  "monitor_run (xs @ ys) standing
   = (fst (monitor_run xs standing) @ fst (monitor_run ys (snd (monitor_run xs standing))),
      snd (monitor_run ys (snd (monitor_run xs standing))))"
  by (induction xs arbitrary: standing) (auto split: prod.split)

lemma monitor_run_alarming:
  assumes "ts \<noteq> []" "\<forall>t\<in>set ts. alarming t"
  shows "monitor_run ts standing
         = (if standing then [] else [risk_alert_raised (hd ts)], True)"
proof -
  from assms obtain x xs where ts: "ts = x # xs" by (cases ts) auto
  with assms have "alarming x" "\<forall>t\<in>set xs. alarming t" by auto
  then show ?thesis
    unfolding ts by (simp add: evaluate_def monitor_run_standing)
qed

text \<open>
  C7: from a state with no alert standing, a stretch of one, two or more evaluations at
  \<open>HIGH\<close> or \<open>CRITICAL\<close> emits exactly one event, the \<open>risk_alert_raised\<close> of its
  first evaluation. Anywhere in a run, after the evaluations \<open>before\<close>, such a stretch
  emits that one event if no alert stands when it begins and nothing if one does. While
  the alert stands, a further alarming tier emits nothing; the alert is cleared when the
  tier is \<open>MODERATE\<close> or below, and such a tier raises nothing.
\<close>

theorem C7_alert_edge_triggered:
  "(ts \<noteq> [] \<and> (\<forall>t\<in>set ts. alarming t) \<longrightarrow>
      monitor_run ts False = ([risk_alert_raised (hd ts)], True)
      \<and> length (filter is_raised (fst (monitor_run ts False))) = 1
      \<and> monitor_run (before @ ts) False
          = (fst (monitor_run before False)
               @ (if snd (monitor_run before False) then [] else [risk_alert_raised (hd ts)]),
             True))
   \<and> (alarming t \<longrightarrow> evaluate t True = ([], True))
   \<and> (\<not> alarming t \<longrightarrow> evaluate t True = ([risk_alert_cleared t], False)
                         \<and> evaluate t False = ([], False))"
proof (intro conjI impI)
  assume a: "ts \<noteq> [] \<and> (\<forall>t\<in>set ts. alarming t)"
  then have r: "monitor_run ts standing
         = (if standing then [] else [risk_alert_raised (hd ts)], True)" for standing
    using monitor_run_alarming [of ts standing] by blast
  show "monitor_run ts False = ([risk_alert_raised (hd ts)], True)"
    by (simp add: r)
  show "length (filter is_raised (fst (monitor_run ts False))) = 1"
    by (simp add: r is_raised_def)
  show "monitor_run (before @ ts) False
          = (fst (monitor_run before False)
               @ (if snd (monitor_run before False) then [] else [risk_alert_raised (hd ts)]),
             True)"
    by (simp add: monitor_run_append r)
qed (simp_all add: evaluate_def)

theorem C7_alert_edge_triggered_witness:
  "monitor_run [HIGH, CRITICAL] False = ([risk_alert_raised HIGH], True)
   \<and> length (filter is_raised (fst (monitor_run [HIGH, CRITICAL] False))) = 1
   \<and> monitor_run ([CRITICAL, LOW] @ [HIGH, CRITICAL]) False
       = ([risk_alert_raised CRITICAL, risk_alert_cleared LOW, risk_alert_raised HIGH], True)
   \<and> evaluate CRITICAL True = ([], True)
   \<and> evaluate MODERATE True = ([risk_alert_cleared MODERATE], False)"
  using C7_alert_edge_triggered [of "[HIGH, CRITICAL]" "[CRITICAL, LOW]" CRITICAL]
        C7_alert_edge_triggered [of "[HIGH, CRITICAL]" "[CRITICAL, LOW]" MODERATE]
  by (simp add: alarming_def evaluate_def)

section \<open>Retrying a failing call\<close>

lemma retry_loop_success:
  assumes "1 \<le> attempt" "nat (attempt - 1) \<le> k" "int k < maxRetries"
    and "\<forall>i. nat (attempt - 1) \<le> i \<and> i < k \<longrightarrow> isl (fn i)"
    and "fn k = Inr v"
  shows "retry_loop fn maxRetries attempt lastError = (Inr v, Suc k)"
  using assms
proof (induction fn maxRetries attempt lastError rule: retry_loop.induct)
  case (1 fn maxRetries attempt lastError)
  have le: "attempt \<le> maxRetries" using "1.prems" by linarith
  show ?case
  proof (cases "nat (attempt - 1) = k")
    case True
    then have "fn (nat (attempt - 1)) = Inr v" "nat attempt = Suc k"
      using "1.prems" by auto
    then show ?thesis using le by (subst retry_loop.simps) simp
  next
    case False
    then have lt: "nat (attempt - 1) < k" using "1.prems" by linarith
    then have "isl (fn (nat (attempt - 1)))" using "1.prems" by blast
    then obtain e where e: "fn (nat (attempt - 1)) = Inl e" by (cases "fn (nat (attempt - 1))") auto
    have ne: "attempt \<noteq> maxRetries" using lt "1.prems" by linarith
    have "retry_loop fn maxRetries (attempt + 1) (Some e) = (Inr v, Suc k)"
    proof (rule "1.IH" [OF le e ne])
      show "1 \<le> attempt + 1" using "1.prems" by simp
      show "nat (attempt + 1 - 1) \<le> k" using lt "1.prems" by linarith
      show "int k < maxRetries" by fact
      show "\<forall>i. nat (attempt + 1 - 1) \<le> i \<and> i < k \<longrightarrow> isl (fn i)"
        using "1.prems" by auto
      show "fn k = Inr v" by fact
    qed
    then show ?thesis using le e ne by (subst retry_loop.simps) simp
  qed
qed

lemma retry_loop_all_fail:
  assumes "1 \<le> attempt" "attempt \<le> maxRetries"
    and "\<forall>i. nat (attempt - 1) \<le> i \<and> int i < maxRetries \<longrightarrow> isl (fn i)"
  shows "retry_loop fn maxRetries attempt lastError
         = (Inl (Some (projl (fn (nat (maxRetries - 1))))), nat maxRetries)"
  using assms
proof (induction fn maxRetries attempt lastError rule: retry_loop.induct)
  case (1 fn maxRetries attempt lastError)
  have "isl (fn (nat (attempt - 1)))" using "1.prems" by auto
  then obtain e where e: "fn (nat (attempt - 1)) = Inl e" by (cases "fn (nat (attempt - 1))") auto
  show ?case
  proof (cases "attempt = maxRetries")
    case True
    then show ?thesis using e "1.prems" by (subst retry_loop.simps) simp
  next
    case False
    have "retry_loop fn maxRetries (attempt + 1) (Some e)
          = (Inl (Some (projl (fn (nat (maxRetries - 1))))), nat maxRetries)"
    proof (rule "1.IH" [OF "1.prems"(2) e False])
      show "1 \<le> attempt + 1" using "1.prems" by simp
      show "attempt + 1 \<le> maxRetries" using False "1.prems" by simp
      show "\<forall>i. nat (attempt + 1 - 1) \<le> i \<and> int i < maxRetries \<longrightarrow> isl (fn i)"
        using "1.prems" by auto
    qed
    then show ?thesis using e False "1.prems" by (subst retry_loop.simps) simp
  qed
qed

lemma retry_loop_calls:
  "1 \<le> attempt \<Longrightarrow> int (snd (retry_loop fn maxRetries attempt lastError)) \<le> max (attempt - 1) maxRetries"
proof (induction fn maxRetries attempt lastError rule: retry_loop.induct)
  case (1 fn maxRetries attempt lastError)
  show ?case
  proof (cases "attempt \<le> maxRetries")
    case False
    then show ?thesis using "1.prems" by (subst retry_loop.simps) simp
  next
    case le: True
    show ?thesis
    proof (cases "fn (nat (attempt - 1))")
      case (Inr v)
      then show ?thesis using le "1.prems" by (subst retry_loop.simps) simp
    next
      case (Inl e)
      show ?thesis
      proof (cases "attempt = maxRetries")
        case True
        then show ?thesis using le Inl "1.prems" by (subst retry_loop.simps) simp
      next
        case False
        have "int (snd (retry_loop fn maxRetries (attempt + 1) (Some e))) \<le> max (attempt + 1 - 1) maxRetries"
          using "1.IH" [OF le Inl False] "1.prems" by simp
        then show ?thesis using le Inl False "1.prems" by (subst retry_loop.simps) simp
      qed
    qed
  qed
qed

text \<open>
  C8: \<open>retryWithBackoff\<close> invokes the callback at most \<open>maxRetries\<close> times. If the
  invocation number \<open>k\<close> (from 0, below \<open>maxRetries\<close>) is the first to succeed, its value
  is returned after exactly \<open>k + 1\<close> invocations. If all \<open>maxRetries\<close> invocations fail
  (and there is at least one), the error of the last one is thrown. With no attempt
  allowed, nothing is invoked and \<open>undefined\<close> is thrown.
\<close>

theorem C8_retry_outcomes:
  "int (snd (retryWithBackoff fn maxRetries)) \<le> max 0 maxRetries
   \<and> (int k < maxRetries \<and> (\<forall>i<k. isl (fn i)) \<and> fn k = Inr v
        \<longrightarrow> retryWithBackoff fn maxRetries = (Inr v, Suc k))
   \<and> (1 \<le> maxRetries \<and> (\<forall>i. int i < maxRetries \<longrightarrow> isl (fn i))
        \<longrightarrow> retryWithBackoff fn maxRetries
            = (Inl (Some (projl (fn (nat (maxRetries - 1))))), nat maxRetries))
   \<and> (maxRetries < 1 \<longrightarrow> retryWithBackoff fn maxRetries = (Inl None, 0))"
proof (intro conjI impI)
  show "int (snd (retryWithBackoff fn maxRetries)) \<le> max 0 maxRetries"
    using retry_loop_calls [of 1 fn maxRetries None] by (simp add: retryWithBackoff_def)
next
  assume a: "int k < maxRetries \<and> (\<forall>i<k. isl (fn i)) \<and> fn k = Inr v"
  show "retryWithBackoff fn maxRetries = (Inr v, Suc k)"
    unfolding retryWithBackoff_def
    by (rule retry_loop_success) (use a in auto)
next
  assume a: "1 \<le> maxRetries \<and> (\<forall>i. int i < maxRetries \<longrightarrow> isl (fn i))"
  show "retryWithBackoff fn maxRetries
            = (Inl (Some (projl (fn (nat (maxRetries - 1))))), nat maxRetries)"
    unfolding retryWithBackoff_def
    by (rule retry_loop_all_fail) (use a in auto)
next
  assume "maxRetries < 1"
  then show "retryWithBackoff fn maxRetries = (Inl None, 0)"
    by (simp add: retryWithBackoff_def)
qed

theorem C8_retry_outcomes_witness:
  "retryWithBackoff (\<lambda>i. if i < 2 then Inl (''boom'', i) else Inr (42::nat)) 3 = (Inr 42, 3)
   \<and> retryWithBackoff (\<lambda>i. (Inl (''boom'', i) :: (string \<times> nat) + nat)) 3
       = (Inl (Some (''boom'', 2)), 3)"
proof -
  have "retryWithBackoff (\<lambda>i. if i < 2 then Inl (''boom'', i) else Inr (42::nat)) 3
        = (Inr 42, Suc 2)"
    using C8_retry_outcomes [of "\<lambda>i. if i < 2 then Inl (''boom'', i) else Inr (42::nat)" 3 2 42] by simp
  moreover have "retryWithBackoff (\<lambda>i. (Inl (''boom'', i) :: (string \<times> nat) + nat)) 3
       = (Inl (Some (''boom'', 2)), 3)"
    using C8_retry_outcomes [of "\<lambda>i. (Inl (''boom'', i) :: (string \<times> nat) + nat)" 3 0 0] by simp
  ultimately show ?thesis by simp
qed

section \<open>The overall risk level\<close>

lemma tier_names_cases:
  "s \<in> set tier_names \<longleftrightarrow>
     s = ''CRITICAL'' \<or> s = ''HIGH'' \<or> s = ''MODERATE'' \<or> s = ''LOW'' \<or> s = ''EXCELLENT''"
  by (simp add: tier_names_def SEVERITY_LEVELS_def)

lemma tier_rank_range: "s \<in> set tier_names \<Longrightarrow> 1 \<le> tier_rank s \<and> tier_rank s \<le> 5"
  by (auto simp: tier_names_cases tier_rank_def SEVERITY_LEVELS_def)

lemma tier_nonempty: "s \<in> set tier_names \<Longrightarrow> s \<noteq> []"
  by (auto simp: tier_names_cases)

lemma risk_add_tier:
  "s \<in> set tier_names \<Longrightarrow> risk_add (Some a) s = Some (a + real_of_int (tier_rank s))"
  by (auto simp: tier_names_cases risk_add_def literal_get_def riskWeights_def tier_rank_def
      SEVERITY_LEVELS_def)

lemma risk_level_round:
  assumes "1 \<le> x" "x \<le> 5"
  shows "(if js_ge (Num x) (Num 4.5) then ''CRITICAL''
          else if js_ge (Num x) (Num 3.5) then ''HIGH''
          else if js_ge (Num x) (Num 2.5) then ''MODERATE''
          else if js_ge (Num x) (Num 1.5) then ''LOW''
          else ''EXCELLENT'') = tier_of_rank (round x)"
proof -
  define k where "k = round x"
  have lo: "real_of_int k \<le> x + 1 / 2" and hi: "x + 1 / 2 < real_of_int k + 1"
    unfolding k_def round_def by linarith+
  have "1 \<le> k \<and> k \<le> 5" using lo hi assms by linarith
  then consider "k = 1" | "k = 2" | "k = 3" | "k = 4" | "k = 5" by linarith
  then show ?thesis
  proof cases
    case 1
    then show ?thesis using lo hi unfolding k_def [symmetric]
      by (simp add: js_ge_def tier_of_rank_def SEVERITY_LEVELS_def)
  next
    case 2
    then show ?thesis using lo hi unfolding k_def [symmetric]
      by (simp add: js_ge_def tier_of_rank_def SEVERITY_LEVELS_def)
  next
    case 3
    then show ?thesis using lo hi unfolding k_def [symmetric]
      by (simp add: js_ge_def tier_of_rank_def SEVERITY_LEVELS_def)
  next
    case 4
    then show ?thesis using lo hi unfolding k_def [symmetric]
      by (simp add: js_ge_def tier_of_rank_def SEVERITY_LEVELS_def)
  next
    case 5
    then show ?thesis using lo hi unfolding k_def [symmetric]
      by (simp add: js_ge_def tier_of_rank_def SEVERITY_LEVELS_def)
  qed
qed

lemma carries_tierE:
  assumes "carries_tier fd cat"
  obtains d s where "cats fd cat = Some d" "severity d = Some s" "s \<in> set tier_names"
  using assms by (auto simp: carries_tier_def split: option.splits)

text \<open>
  C2: for a snapshot in which each of the five categories carries a severity tier,
  \<open>getOverallRiskLevel\<close> returns the tier whose rank is the mean of the five ranks, each
  of weight 1, rounded to the nearest integer.
\<close>

theorem C2_overall_risk_is_rounded_mean:
  assumes "\<forall>cat\<in>set [''tired'', ''energetic'', ''sick'', ''hungry'', ''adventurous''].
             carries_tier fd cat"
  shows "getOverallRiskLevel (Some fd) = spec_overall_risk fd"
proof -
  from assms obtain d1 s1 where c1: "cats fd ''tired'' = Some d1" "severity d1 = Some s1"
    and t1: "s1 \<in> set tier_names" by (auto elim: carries_tierE)
  from assms obtain d2 s2 where c2: "cats fd ''energetic'' = Some d2" "severity d2 = Some s2"
    and t2: "s2 \<in> set tier_names" by (auto elim: carries_tierE)
  from assms obtain d3 s3 where c3: "cats fd ''sick'' = Some d3" "severity d3 = Some s3"
    and t3: "s3 \<in> set tier_names" by (auto elim: carries_tierE)
  from assms obtain d4 s4 where c4: "cats fd ''hungry'' = Some d4" "severity d4 = Some s4"
    and t4: "s4 \<in> set tier_names" by (auto elim: carries_tierE)
  from assms obtain d5 s5 where c5: "cats fd ''adventurous'' = Some d5" "severity d5 = Some s5"
    and t5: "s5 \<in> set tier_names" by (auto elim: carries_tierE)
  define x where
    "x = (real_of_int (tier_rank s1) + real_of_int (tier_rank s2) + real_of_int (tier_rank s3)
          + real_of_int (tier_rank s4) + real_of_int (tier_rank s5)) / 5"
  have sevs: "severities_of fd = [s1, s2, s3, s4, s5]"
    using tier_nonempty [OF t1] tier_nonempty [OF t2] tier_nonempty [OF t3]
      tier_nonempty [OF t4] tier_nonempty [OF t5]
    by (simp add: severities_of_def List.map_filter_simps c1 c2 c3 c4 c5)
  have avg: "avg_risk [s1, s2, s3, s4, s5] = Num x"
    by (simp add: avg_risk_def x_def risk_add_tier t1 t2 t3 t4 t5)
  have mean: "spec_weighted_mean_rank (\<lambda>cat. 1) fd = x"
    by (simp add: spec_weighted_mean_rank_def category_rank_def x_def c1 c2 c3 c4 c5)
  have range: "1 \<le> x \<and> x \<le> 5"
    using tier_rank_range [OF t1] tier_rank_range [OF t2] tier_rank_range [OF t3]
      tier_rank_range [OF t4] tier_rank_range [OF t5]
    unfolding x_def by simp
  have "getOverallRiskLevel (Some fd) = tier_of_rank (round x)"
    using range risk_level_round [of x]
    by (simp add: getOverallRiskLevel_def sevs avg Let_def)
  then show ?thesis by (simp add: spec_overall_risk_def mean)
qed

theorem C2_overall_risk_is_rounded_mean_witness:
  "getOverallRiskLevel
     (Some \<lparr>cats = [''tired'' \<mapsto> \<lparr>average = Some (Num 9), count = Some (Num 4), severity = Some ''CRITICAL''\<rparr>,
                    ''energetic'' \<mapsto> \<lparr>average = Some (Num 3), count = Some (Num 4), severity = Some ''HIGH''\<rparr>,
                    ''sick'' \<mapsto> \<lparr>average = Some (Num 5), count = Some (Num 4), severity = Some ''MODERATE''\<rparr>,
                    ''hungry'' \<mapsto> \<lparr>average = Some (Num 7), count = Some (Num 4), severity = Some ''HIGH''\<rparr>,
                    ''adventurous'' \<mapsto> \<lparr>average = Some (Num 6), count = Some (Num 4), severity = Some ''LOW''\<rparr>],
            user_feedback = None, agg_lastUpdated = None,
            agg_tripId = JString ''t1'', agg_activityId = JString ''a1''\<rparr>)
   = ''HIGH''"
  using C2_overall_risk_is_rounded_mean [of
     "\<lparr>cats = [''tired'' \<mapsto> \<lparr>average = Some (Num 9), count = Some (Num 4), severity = Some ''CRITICAL''\<rparr>,
                    ''energetic'' \<mapsto> \<lparr>average = Some (Num 3), count = Some (Num 4), severity = Some ''HIGH''\<rparr>,
                    ''sick'' \<mapsto> \<lparr>average = Some (Num 5), count = Some (Num 4), severity = Some ''MODERATE''\<rparr>,
                    ''hungry'' \<mapsto> \<lparr>average = Some (Num 7), count = Some (Num 4), severity = Some ''HIGH''\<rparr>,
                    ''adventurous'' \<mapsto> \<lparr>average = Some (Num 6), count = Some (Num 4), severity = Some ''LOW''\<rparr>],
            user_feedback = None, agg_lastUpdated = None,
            agg_tripId = JString ''t1'', agg_activityId = JString ''a1''\<rparr>"]
  by (simp add: carries_tier_def tier_names_def SEVERITY_LEVELS_def spec_overall_risk_def
      spec_weighted_mean_rank_def category_rank_def tier_rank_def tier_of_rank_def round_def)

section \<open>Resubmitting feedback\<close>







section \<open>Validation before a submission\<close>

lemma validate_fold:
  "fold (\<lambda>category errs.
            if fails_range_check (get fd category)
            then errs @ [Must_be_between_1_and_10 category] else errs) cs errs0 = []
   \<longleftrightarrow> errs0 = [] \<and> (\<forall>c\<in>set cs. \<not> fails_range_check (get fd c))"
  by (induction cs arbitrary: errs0) auto

lemma isValid_iff:
  "isValid (validateFeedbackData fd) \<longleftrightarrow>
     (truthy (get fd ''activityId'') \<or> truthy (get fd ''activity_id''))
     \<and> (\<forall>c\<in>set [''tired'', ''energetic'', ''sick'', ''hungry'', ''adventurous''].
           \<not> fails_range_check (get fd c))"
  unfolding validateFeedbackData_def Let_def
  by (simp only: validation.simps length_0_conv validate_fold) auto

lemma fails_range_check_iff:
  "fails_range_check v \<longleftrightarrow> (\<forall>r. v = JNumber (Num r) \<longrightarrow> r < 1 \<or> 10 < r) \<and> v \<noteq> JNumber NaN"
  apply (cases v; simp add: fails_range_check_def js_gt_def)
  subgoal for n by (cases n; simp)
  done

lemma handleSubmit_invalid:
  assumes "\<not> isValid (validateFeedbackData
             ([''activityId'' \<mapsto> (if truthy activityId then activityId else JString (''activity-'' @ stamp))]
              ++ feedback st))"
  shows "snd (handleSubmit activityId stamp result st) = None
         \<and> feedback (fst (handleSubmit activityId stamp result st)) = feedback st
         \<and> isSubmitting (fst (handleSubmit activityId stamp result st)) = isSubmitting st"
  using assms by (simp add: handleSubmit_def Let_def)

lemma handleSubmit_missing_activity_id:
  "(case snd (handleSubmit JUndefined stamp (Success (Some Map.empty))
             \<lparr>feedback = default_feedback, form_errors = Map.empty, isSubmitting = False,
              submitMessage = None\<rparr>) of
      None \<Rightarrow> False
    | Some request \<Rightarrow> get request ''activityId'' = JUndefined)"
  by (simp add: isValid_iff handleSubmit_def Let_def get_def fails_range_check_def js_gt_def
      default_feedback_def)

text \<open>
  C4 asks that a submission with a category value that is not a number between 1 and 10
  be rejected and never sent. A form whose \<open>tired\<close> value is NaN passes
  \<open>validateFeedbackData\<close>, and \<open>handleSubmit\<close> sends it.
\<close>

theorem C4_nan_passes_validation:
  "isValid (validateFeedbackData
      [''activityId'' \<mapsto> JString ''a1'', ''tired'' \<mapsto> JNumber NaN,
       ''energetic'' \<mapsto> JNumber (Num 5), ''sick'' \<mapsto> JNumber (Num 5),
       ''hungry'' \<mapsto> JNumber (Num 5), ''adventurous'' \<mapsto> JNumber (Num 5)])
   \<and> (case snd (handleSubmit (JString ''a1'') ''0'' (Success (Some Map.empty))
          \<lparr>feedback = [''tired'' \<mapsto> JNumber NaN,
               ''energetic'' \<mapsto> JNumber (Num 5), ''sick'' \<mapsto> JNumber (Num 5),
               ''hungry'' \<mapsto> JNumber (Num 5), ''adventurous'' \<mapsto> JNumber (Num 5)],
           form_errors = Map.empty, isSubmitting = False, submitMessage = None\<rparr>) of
         None \<Rightarrow> False
       | Some request \<Rightarrow> get request ''tired'' = JNumber NaN)"
  by (simp add: isValid_iff handleSubmit_def Let_def get_def fails_range_check_def js_gt_def)

end
